theory Spec2Isabelle
  imports Main "HOL-Library.Word"
begin

section \<open>ModelExperimentalStatistics: rendering statistics for a single model\<close>

text \<open>
  A shallow embedding of \<^verbatim>\<open>Source/Scene/ModelExperimental/ModelExperimentalStatistics.js\<close>.
  One statistics object is a record; every method takes the record (\<open>this\<close>) and returns
  how the call completed together with the record as the call left it.
\<close>

subsection \<open>Numbers\<close>

text \<open>
  The totals and the byte sizes are JavaScript Numbers, that is IEEE 754 doubles. The
  model has the Numbers that sizes and counts can be: the non-negative integers that a
  double holds, \<open>Infinity\<close> and \<open>NaN\<close>. Negative and fractional Numbers are not values
  of the type.

  A double holds every integer below \<open>2^53\<close>; from there on it holds the integers that
  have at most 53 significant bits. The sum and the product of two doubles are the exact
  result rounded to the nearest double, a tie going to the double whose last significant
  bit is 0, and a result that rounds to \<open>2^1024\<close> or more is \<open>Infinity\<close>.
\<close>

datatype dbl = NaN | PosInf | Fin nat

fun bitLength :: "nat \<Rightarrow> nat" where
  "bitLength n = (if n = 0 then 0 else Suc (bitLength (n div 2)))"

declare bitLength.simps [simp del]

definition roundToEven :: "nat \<Rightarrow> nat \<Rightarrow> nat" where
  \<comment> \<open>\<open>n\<close> rounded to the nearest multiple of \<open>q\<close>, a tie to the even multiple\<close>
  "roundToEven n q =
     (let m = n div q; r = n mod q
      in if 2 * r < q \<or> (2 * r = q \<and> even m) then m * q else (m + 1) * q)"

definition round53 :: "nat \<Rightarrow> nat" where
  \<comment> \<open>\<open>n\<close> rounded to 53 significant bits\<close>
  "round53 n = (if n < 2 ^ 53 then n else roundToEven n (2 ^ (bitLength n - 53)))"

definition toDbl :: "nat \<Rightarrow> dbl" where
  \<comment> \<open>the double nearest to the integer \<open>n\<close>\<close>
  "toDbl n = (let r = round53 n in if r < 2 ^ 1024 then Fin r else PosInf)"

fun addDbl :: "dbl \<Rightarrow> dbl \<Rightarrow> dbl" where
  "addDbl (Fin a) (Fin b) = toDbl (a + b)"
| "addDbl NaN y = NaN"
| "addDbl x NaN = NaN"
| "addDbl PosInf y = PosInf"
| "addDbl x PosInf = PosInf"

fun mulDbl :: "dbl \<Rightarrow> dbl \<Rightarrow> dbl" where
  "mulDbl (Fin a) (Fin b) = toDbl (a * b)"
| "mulDbl NaN y = NaN"
| "mulDbl x NaN = NaN"
| "mulDbl PosInf (Fin b) = (if b = 0 then NaN else PosInf)"
| "mulDbl (Fin a) PosInf = (if a = 0 then NaN else PosInf)"
| "mulDbl PosInf PosInf = PosInf"

text \<open>
  The type of Numbers: \<open>NaN\<close>, \<open>Infinity\<close> and the doubles that rounding gives. A value
  \<open>Fin n\<close> with an \<open>n\<close> that no double holds is not a Number.
\<close>

typedef number = "insert NaN (insert PosInf (range toDbl))"
  by blast

setup_lifting type_definition_number

lift_definition numberOf :: "nat \<Rightarrow> number" is toDbl
  \<comment> \<open>the Number that the decimal literal \<open>n\<close> denotes\<close>
  by simp

lift_definition jsAdd :: "number \<Rightarrow> number \<Rightarrow> number" is addDbl
  \<comment> \<open>\<^verbatim>\<open>x + y\<close>\<close>
proof -
  fix x y :: dbl
  show "addDbl x y \<in> insert NaN (insert PosInf (range toDbl))"
    by (cases x; cases y) simp_all
qed

lift_definition jsMul :: "number \<Rightarrow> number \<Rightarrow> number" is mulDbl
  \<comment> \<open>\<^verbatim>\<open>x * y\<close>\<close>
proof -
  fix x y :: dbl
  show "mulDbl x y \<in> insert NaN (insert PosInf (range toDbl))"
    by (cases x; cases y) simp_all
qed

lift_definition natValue :: "number \<Rightarrow> nat option" is
  \<comment> \<open>the integer that a finite Number holds\<close>
  "\<lambda>x. case x of Fin n \<Rightarrow> Some n | _ \<Rightarrow> None" .

subsection \<open>Resource ids and property names\<close>

text \<open>
  The \<^verbatim>\<open>_id\<close> of a resource is a string or a number. The numbers of the model are the
  integers from \<open>0\<close> to \<open>2^53 - 1\<close>, the type \<open>53 word\<close>: for these the string of the
  Number is its decimal digits. An id used as a property name of a plain object
  (\<^verbatim>\<open>obj[id]\<close>, \<^verbatim>\<open>obj.hasOwnProperty(id)\<close>) is first turned into a string: a string
  stays as it is, a number becomes its string.
\<close>

datatype js_id = IdNumber "53 word" | IdString string

definition digitChar :: "nat \<Rightarrow> char" where
  \<comment> \<open>the last decimal digit of \<open>d\<close>\<close>
  "digitChar d = ''0123456789'' ! (d mod 10)"

fun numberToString :: "nat \<Rightarrow> string" where
  "numberToString n =
     (if n < 10 then [digitChar n] else numberToString (n div 10) @ [digitChar (n mod 10)])"

declare numberToString.simps [simp del]

fun toPropertyKey :: "js_id \<Rightarrow> string" where
  "toPropertyKey (IdNumber n) = numberToString (unat n)"
| "toPropertyKey (IdString s) = s"

subsection \<open>Errors\<close>

datatype error = InvalidArgument | TypeError

datatype completion = Normal | Throw error

text \<open>
  A call either returns (\<open>Normal\<close>) or throws. A method of the model returns the
  completion together with the record as the call left it, so that what a call had
  already changed when it threw is part of the result.
\<close>

text \<open>
  Modelled from the spec: \<^verbatim>\<open>Core/Check.js\<close> is not among the sources. The spec says that
  each registration operation raises \<open>InvalidArgument\<close> when a required reference is
  missing or a flag is not of the expected boolean type. An argument is therefore an
  \<open>option\<close>: \<open>None\<close> is an argument that is not an object (for the flag: not a boolean),
  \<open>Some x\<close> is the object (the boolean) \<open>x\<close>. The source places the checks between
  \<^verbatim>\<open>//>>includeStart('debug', pragmas.debug)\<close> and \<^verbatim>\<open>//>>includeEnd('debug')\<close>; the
  model is the source as written, with the checks.
\<close>

definition Check_typeOf_object :: "'a option \<Rightarrow> error + 'a" where
  \<comment> \<open>Modelled from the spec: \<^verbatim>\<open>Check.typeOf.object\<close>, missing from the sources\<close>
  "Check_typeOf_object test = (case test of None \<Rightarrow> Inl InvalidArgument | Some x \<Rightarrow> Inr x)"

definition Check_typeOf_bool :: "bool option \<Rightarrow> error + bool" where
  \<comment> \<open>Modelled from the spec: \<^verbatim>\<open>Check.typeOf.bool\<close>, missing from the sources\<close>
  "Check_typeOf_bool test = (case test of None \<Rightarrow> Inl InvalidArgument | Some b \<Rightarrow> Inr b)"

subsection \<open>Plain objects used as sets\<close>

text \<open>
  \<^verbatim>\<open>_bufferIdSet\<close> and \<^verbatim>\<open>_textureIdSet\<close> are plain objects created by \<^verbatim>\<open>{}\<close>; the only
  write is \<^verbatim>\<open>obj[id] = true\<close>, the only read is \<^verbatim>\<open>obj.hasOwnProperty(id)\<close>. Such an
  object is modelled by the set of the names of its own properties (each holds
  \<^verbatim>\<open>true\<close>); what it inherits from \<^verbatim>\<open>Object.prototype\<close> is written into the two
  operations:
  \<^item> \<^verbatim>\<open>obj.hasOwnProperty\<close> is looked up on the object. Once the object has an own
    property of that name, the lookup finds the value \<^verbatim>\<open>true\<close> instead of the inherited
    method, and calling it throws a \<open>TypeError\<close>.
  \<^item> \<^verbatim>\<open>obj["__proto__"] = true\<close> runs the inherited setter of \<^verbatim>\<open>__proto__\<close>, which
    ignores a value that is not an object: no own property is made. Every other name
    becomes an own property.
\<close>

type_synonym idSet = "string set"

definition hasOwnProperty :: "idSet \<Rightarrow> js_id \<Rightarrow> error + bool" where
  "hasOwnProperty obj ident =
     (if ''hasOwnProperty'' \<in> obj then Inl TypeError else Inr (toPropertyKey ident \<in> obj))"

definition setTrue :: "idSet \<Rightarrow> js_id \<Rightarrow> idSet" where
  \<comment> \<open>\<^verbatim>\<open>obj[ident] = true\<close>\<close>
  "setTrue obj ident =
     (if toPropertyKey ident = ''__proto__'' then obj else insert (toPropertyKey ident) obj)"

subsection \<open>Resources\<close>

text \<open>
  \<open>addBuffer\<close> and \<open>addTexture\<close> read \<^verbatim>\<open>_id\<close> and \<^verbatim>\<open>sizeInBytes\<close> during the call and
  keep no reference, so a buffer or a texture is passed as the record of the two fields.
  A batch texture is kept by reference and its \<^verbatim>\<open>byteLength\<close> is read later, so batch
  textures live in a store: a reference is an address, and the store gives the object at
  each address as it is at that moment.
\<close>

record Buffer =
  buffer_id :: js_id
  buffer_sizeInBytes :: number

record Texture =
  texture_id :: js_id
  texture_sizeInBytes :: number

record BatchTexture =
  batchTexture_id :: js_id
  batchTexture_byteLength :: number

type_synonym ref = nat
type_synonym store = "ref \<Rightarrow> BatchTexture"

subsection \<open>The batch texture registry\<close>

text \<open>
  Modelled from the spec: \<^verbatim>\<open>Core/AssociativeArray.js\<close> is not among the sources. The spec
  describes the registry as an ordered mapping from identity to reference, with a
  membership test, an insertion, the removal of all entries, and an iteration over the
  current contents. It is modelled as the list of its entries in insertion order, at most
  one entry for a key.
\<close>

type_synonym ('k, 'v) AssociativeArray = "('k \<times> 'v) list"

definition aa_contains :: "('k, 'v) AssociativeArray \<Rightarrow> 'k \<Rightarrow> bool" where
  \<comment> \<open>Modelled from the spec: \<^verbatim>\<open>AssociativeArray.prototype.contains\<close>, the membership test\<close>
  "aa_contains a k = (map_of a k \<noteq> None)"

definition aa_set :: "('k, 'v) AssociativeArray \<Rightarrow> 'k \<Rightarrow> 'v \<Rightarrow> ('k, 'v) AssociativeArray" where
  \<comment> \<open>Modelled from the spec: \<^verbatim>\<open>AssociativeArray.prototype.set\<close>, the insertion of a
     mapping; an entry that the key already has is replaced\<close>
  "aa_set a k v = filter (\<lambda>e. fst e \<noteq> k) a @ [(k, v)]"

definition aa_removeAll :: "('k, 'v) AssociativeArray \<Rightarrow> ('k, 'v) AssociativeArray" where
  \<comment> \<open>Modelled from the spec: \<^verbatim>\<open>AssociativeArray.prototype.removeAll\<close>, which removes all
     entries\<close>
  "aa_removeAll a = []"

definition aa_length :: "('k, 'v) AssociativeArray \<Rightarrow> nat" where
  \<comment> \<open>Modelled from the spec: the property \<^verbatim>\<open>length\<close>, the number of entries\<close>
  "aa_length a = length a"

definition aa_values :: "('k, 'v) AssociativeArray \<Rightarrow> 'v list" where
  \<comment> \<open>Modelled from the spec: the property \<^verbatim>\<open>values\<close>, the current contents in order\<close>
  "aa_values a = map snd a"

subsection \<open>The statistics object\<close>

record ModelExperimentalStatistics =
  pointsLength :: number
  trianglesLength :: number
  geometryByteLength :: number
  texturesByteLength :: number
  propertyTablesByteLength :: number
  bufferIdSet :: idSet
  textureIdSet :: idSet
  batchTextureIdMap :: "(js_id, ref) AssociativeArray"

definition newStatistics :: ModelExperimentalStatistics where
  \<comment> \<open>the constructor\<close>
  "newStatistics =
     \<lparr> pointsLength = numberOf 0, trianglesLength = numberOf 0,
       geometryByteLength = numberOf 0, texturesByteLength = numberOf 0,
       propertyTablesByteLength = numberOf 0,
       bufferIdSet = {}, textureIdSet = {}, batchTextureIdMap = [] \<rparr>"

text \<open>
  The getter \<open>batchTexturesByteLength\<close>: the loop
  \<^verbatim>\<open>for (let i = 0; i < length; i++) memory += values[i].byteLength\<close>
  with the store read at each \<^verbatim>\<open>values[i]\<close>, and \<^verbatim>\<open>memory\<close> starting at 0.
\<close>

function batchTexturesLoop :: "store \<Rightarrow> ref list \<Rightarrow> nat \<Rightarrow> nat \<Rightarrow> number \<Rightarrow> number" where
  "batchTexturesLoop h vals len i memory =
     (if i < len
      then batchTexturesLoop h vals len (Suc i)
             (jsAdd memory (batchTexture_byteLength (h (vals ! i))))
      else memory)"
  by pat_completeness auto
termination
  by (relation "measure (\<lambda>(h, vals, len, i, memory). len - i)") auto

declare batchTexturesLoop.simps [simp del]

definition batchTexturesByteLength :: "store \<Rightarrow> ModelExperimentalStatistics \<Rightarrow> number" where
  "batchTexturesByteLength h this =
     (let len = aa_length (batchTextureIdMap this);
          vals = aa_values (batchTextureIdMap this)
      in batchTexturesLoop h vals len 0 (numberOf 0))"

text \<open>
  \<open>clear\<close>: every total is set to 0, the two id sets are replaced by new empty objects,
  and \<^verbatim>\<open>this._batchTextureIdMap.removeAll()\<close> is called.
\<close>

definition clear :: "ModelExperimentalStatistics \<Rightarrow> ModelExperimentalStatistics" where
  "clear this =
     this\<lparr> pointsLength := numberOf 0, trianglesLength := numberOf 0,
           geometryByteLength := numberOf 0, texturesByteLength := numberOf 0,
           propertyTablesByteLength := numberOf 0,
           bufferIdSet := {}, textureIdSet := {},
           batchTextureIdMap := aa_removeAll (batchTextureIdMap this) \<rparr>"

text \<open>
  \<open>addBuffer\<close>, after the two checks:
  \<^verbatim>\<open>
  if (!this._bufferIdSet.hasOwnProperty(buffer._id)) {
    const copies = hasCpuCopy ? 2 : 1;
    this.geometryByteLength += buffer.sizeInBytes * copies;
  }
  this._bufferIdSet[buffer._id] = true;
  \<close>
\<close>

definition addBuffer ::
  "Buffer option \<Rightarrow> bool option \<Rightarrow> ModelExperimentalStatistics
     \<Rightarrow> completion \<times> ModelExperimentalStatistics" where
  "addBuffer buffer hasCpuCopy this =
     (case Check_typeOf_object buffer of
        Inl e \<Rightarrow> (Throw e, this)
      | Inr b \<Rightarrow>
     (case Check_typeOf_bool hasCpuCopy of
        Inl e \<Rightarrow> (Throw e, this)
      | Inr c \<Rightarrow>
     (case hasOwnProperty (bufferIdSet this) (buffer_id b) of
        Inl e \<Rightarrow> (Throw e, this)
      | Inr counted \<Rightarrow>
          let this1 =
                (if \<not> counted
                 then let copies = (if c then numberOf 2 else numberOf 1)
                      in this\<lparr>geometryByteLength :=
                                 jsAdd (geometryByteLength this)
                                       (jsMul (buffer_sizeInBytes b) copies)\<rparr>
                 else this)
          in (Normal, this1\<lparr>bufferIdSet := setTrue (bufferIdSet this1) (buffer_id b)\<rparr>))))"

text \<open>
  \<open>addTexture\<close>, after the check:
  \<^verbatim>\<open>
  if (!this._textureIdSet.hasOwnProperty(texture._id)) {
    this.texturesByteLength += texture.sizeInBytes;
  }
  this._textureIdSet[texture._id] = true;
  \<close>
\<close>

definition addTexture ::
  "Texture option \<Rightarrow> ModelExperimentalStatistics
     \<Rightarrow> completion \<times> ModelExperimentalStatistics" where
  "addTexture texture this =
     (case Check_typeOf_object texture of
        Inl e \<Rightarrow> (Throw e, this)
      | Inr t \<Rightarrow>
     (case hasOwnProperty (textureIdSet this) (texture_id t) of
        Inl e \<Rightarrow> (Throw e, this)
      | Inr counted \<Rightarrow>
          let this1 =
                (if \<not> counted
                 then this\<lparr>texturesByteLength :=
                              jsAdd (texturesByteLength this) (texture_sizeInBytes t)\<rparr>
                 else this)
          in (Normal, this1\<lparr>textureIdSet := setTrue (textureIdSet this1) (texture_id t)\<rparr>)))"

text \<open>
  \<open>addBatchTexture\<close>, after the check; the id is read from the object that the reference
  points to, in the store \<open>h\<close> of the time of the call, and the reference is what is kept:
  \<^verbatim>\<open>
  if (!this._batchTextureIdMap.contains(batchTexture._id)) {
    this._batchTextureIdMap.set(batchTexture._id, batchTexture);
  }
  \<close>
\<close>

definition addBatchTexture ::
  "store \<Rightarrow> ref option \<Rightarrow> ModelExperimentalStatistics
     \<Rightarrow> completion \<times> ModelExperimentalStatistics" where
  "addBatchTexture h batchTexture this =
     (case Check_typeOf_object batchTexture of
        Inl e \<Rightarrow> (Throw e, this)
      | Inr r \<Rightarrow>
          if \<not> aa_contains (batchTextureIdMap this) (batchTexture_id (h r))
          then (Normal, this\<lparr>batchTextureIdMap :=
                                aa_set (batchTextureIdMap this) (batchTexture_id (h r)) r\<rparr>)
          else (Normal, this))"

subsection \<open>Sequences of calls\<close>

text \<open>
  A well-typed call of \<open>addBuffer\<close> or \<open>addTexture\<close>, and a sequence of such calls made
  one after the other on the same object. A call that throws ends the sequence, as the
  exception would.
\<close>

datatype call = AddBuffer Buffer bool | AddTexture Texture

fun perform ::
  "call \<Rightarrow> ModelExperimentalStatistics \<Rightarrow> completion \<times> ModelExperimentalStatistics" where
  "perform (AddBuffer b c) this = addBuffer (Some b) (Some c) this"
| "perform (AddTexture t) this = addTexture (Some t) this"

fun run ::
  "call list \<Rightarrow> ModelExperimentalStatistics \<Rightarrow> completion \<times> ModelExperimentalStatistics" where
  "run [] this = (Normal, this)"
| "run (c # cs) this =
     (case perform c this of
        (Normal, this') \<Rightarrow> run cs this'
      | (Throw e, this') \<Rightarrow> (Throw e, this'))"

text \<open>
  A sequence of well-typed calls of \<open>addBatchTexture\<close>; each call comes with the store as
  it is at the time of the call.
\<close>

fun registerAll ::
  "(store \<times> ref) list \<Rightarrow> ModelExperimentalStatistics
     \<Rightarrow> completion \<times> ModelExperimentalStatistics" where
  "registerAll [] this = (Normal, this)"
| "registerAll ((h, r) # cs) this =
     (case addBatchTexture h (Some r) this of
        (Normal, this') \<Rightarrow> registerAll cs this'
      | (Throw e, this') \<Rightarrow> (Throw e, this'))"

subsection \<open>What the specification speaks of\<close>

text \<open>
  The specification speaks of the first registration of each identity. \<open>firsts seen xs\<close>
  keeps, of a list of registrations \<open>(identity, data)\<close>, the first one of every identity
  that is not in \<open>seen\<close>.
\<close>

fun firsts :: "'k set \<Rightarrow> ('k \<times> 'v) list \<Rightarrow> ('k \<times> 'v) list" where
  "firsts seen [] = []"
| "firsts seen ((k, v) # xs) =
     (if k \<in> seen then firsts seen xs else (k, v) # firsts (insert k seen) xs)"

text \<open>
  The buffer registrations of a sequence of calls, each as (property name of the id,
  (size, flag)); the texture registrations, each as (property name of the id, size); the
  batch texture registrations, each as (id, reference).
\<close>

fun bufferRegistrations :: "call list \<Rightarrow> (string \<times> number \<times> bool) list" where
  "bufferRegistrations [] = []"
| "bufferRegistrations (AddBuffer b c # cs) =
     (toPropertyKey (buffer_id b), (buffer_sizeInBytes b, c)) # bufferRegistrations cs"
| "bufferRegistrations (AddTexture t # cs) = bufferRegistrations cs"

fun textureRegistrations :: "call list \<Rightarrow> (string \<times> number) list" where
  "textureRegistrations [] = []"
| "textureRegistrations (AddBuffer b c # cs) = textureRegistrations cs"
| "textureRegistrations (AddTexture t # cs) =
     (toPropertyKey (texture_id t), texture_sizeInBytes t) # textureRegistrations cs"

definition batchTextureRegistrations :: "(store \<times> ref) list \<Rightarrow> (js_id \<times> ref) list" where
  "batchTextureRegistrations cs = map (\<lambda>(h, r). (batchTexture_id (h r), r)) cs"

text \<open>
  The bytes that the specification assigns to a buffer of a given size and flag: twice
  the size with a CPU copy, once the size without.
\<close>

definition bufferBytes :: "number \<times> bool \<Rightarrow> number" where
  "bufferBytes p = jsMul (fst p) (if snd p then numberOf 2 else numberOf 1)"



text \<open>
  \<open>noProto cs\<close>: no call of the sequence registers an identity whose property name is
  \<^verbatim>\<open>__proto__\<close>.
\<close>

fun noProto :: "call list \<Rightarrow> bool" where
  "noProto [] = True"
| "noProto (AddBuffer b c # cs) = (toPropertyKey (buffer_id b) \<noteq> ''__proto__'' \<and> noProto cs)"
| "noProto (AddTexture t # cs) = (toPropertyKey (texture_id t) \<noteq> ''__proto__'' \<and> noProto cs)"

text \<open>
  The exact sum of a list of Numbers, as a natural number, and the lists for which the
  sums of the source are exact: every Number of the list is finite and the exact sum is
  below \<open>2^53\<close>.
\<close>

definition natOf :: "number \<Rightarrow> nat" where
  "natOf x = (case natValue x of Some n \<Rightarrow> n | None \<Rightarrow> 0)"

definition exactSum :: "number list \<Rightarrow> nat" where
  "exactSum xs = sum_list (map natOf xs)"

definition safeTotal :: "number list \<Rightarrow> bool" where
  "safeTotal xs = (list_all (\<lambda>x. natValue x \<noteq> None) xs \<and> exactSum xs < 2 ^ 53)"

text \<open>The number that a string of decimal digits denotes.\<close>

definition digitValue :: "char \<Rightarrow> nat" where
  "digitValue c = of_char c - 48"

definition digitsValue :: "string \<Rightarrow> nat" where
  "digitsValue s = foldl (\<lambda>a c. 10 * a + digitValue c) 0 s"

subsection \<open>The resources of the specification's scenarios\<close>

text \<open>
  Buffer A (100 bytes), buffer B (50 bytes), textures T1 (40 bytes) and T2 (60 bytes), and
  a store with the two batch textures O1 (at address 1, \<open>n\<close> bytes) and O2 (at every other
  address, \<open>m\<close> bytes).
\<close>

definition bufferA :: Buffer where
  "bufferA = \<lparr>buffer_id = IdString ''A'', buffer_sizeInBytes = numberOf 100\<rparr>"

definition bufferB :: Buffer where
  "bufferB = \<lparr>buffer_id = IdString ''B'', buffer_sizeInBytes = numberOf 50\<rparr>"

definition textureT1 :: Texture where
  "textureT1 = \<lparr>texture_id = IdString ''T1'', texture_sizeInBytes = numberOf 40\<rparr>"

definition textureT2 :: Texture where
  "textureT2 = \<lparr>texture_id = IdString ''T2'', texture_sizeInBytes = numberOf 60\<rparr>"

definition overlays :: "nat \<Rightarrow> nat \<Rightarrow> store" where
  "overlays n m =
     (\<lambda>a. if a = 1
          then \<lparr>batchTexture_id = IdString ''O1'', batchTexture_byteLength = numberOf n\<rparr>
          else \<lparr>batchTexture_id = IdString ''O2'', batchTexture_byteLength = numberOf m\<rparr>)"

text \<open>
  Three buffers and three batch textures whose sizes add up to more than \<open>2 ^ 53\<close>: one of
  \<open>2 ^ 53 = 9007199254740992\<close> bytes and two of one byte.
\<close>

definition bufferX :: Buffer where
  "bufferX = \<lparr>buffer_id = IdString ''X'', buffer_sizeInBytes = numberOf 9007199254740992\<rparr>"

definition bufferY :: Buffer where
  "bufferY = \<lparr>buffer_id = IdString ''Y'', buffer_sizeInBytes = numberOf 1\<rparr>"

definition bufferZ :: Buffer where
  "bufferZ = \<lparr>buffer_id = IdString ''Z'', buffer_sizeInBytes = numberOf 1\<rparr>"

definition bigOverlays :: store where
  "bigOverlays =
     (\<lambda>a. if a = 1
          then \<lparr>batchTexture_id = IdString ''O1'',
                batchTexture_byteLength = numberOf 9007199254740992\<rparr>
          else if a = 2
          then \<lparr>batchTexture_id = IdString ''O2'', batchTexture_byteLength = numberOf 1\<rparr>
          else \<lparr>batchTexture_id = IdString ''O3'', batchTexture_byteLength = numberOf 1\<rparr>)"

section \<open>Properties\<close>

subsection \<open>Rounding\<close>

text \<open>
  \<open>bitLength n\<close> is the number of bits of \<open>n\<close>; rounding leaves a rounded number as it
  is, so that the finite Numbers are the numbers that \<open>toDbl\<close> leaves unchanged.
\<close>

lemma bitLength_le: "bitLength n \<le> k \<longleftrightarrow> n < 2 ^ k"
proof (induction n arbitrary: k rule: bitLength.induct)
  case (1 n)
  show ?case
  proof (cases "n = 0")
    case True
    then show ?thesis by (simp add: bitLength.simps)
  next
    case False
    show ?thesis
    proof (cases k)
      case 0
      with False show ?thesis by (simp add: bitLength.simps [of n])
    next
      case (Suc j)
      have "bitLength n \<le> Suc j \<longleftrightarrow> bitLength (n div 2) \<le> j"
        using False by (simp add: bitLength.simps [of n])
      also have "\<dots> \<longleftrightarrow> n div 2 < 2 ^ j"
        using False by (rule "1.IH")
      also have "\<dots> \<longleftrightarrow> n < 2 ^ Suc j"
        by (simp add: div_less_iff_less_mult mult.commute)
      finally show ?thesis using Suc by simp
    qed
  qed
qed

lemma bitLength_eq:
  assumes "2 ^ k \<le> n" and "n < 2 ^ Suc k"
  shows "bitLength n = Suc k"
proof -
  have "bitLength n \<le> Suc k" using assms(2) by (simp add: bitLength_le)
  moreover have "\<not> bitLength n \<le> k" using assms(1) by (simp add: bitLength_le)
  ultimately show ?thesis by simp
qed

lemma round53_small: "n < 2 ^ 53 \<Longrightarrow> round53 n = n"
  by (simp add: round53_def)

lemma round53_scaled:
  assumes "2 ^ 52 \<le> j" and "j < 2 ^ 53"
  shows "round53 (j * 2 ^ e) = j * 2 ^ e"
proof (cases "j * 2 ^ e < 2 ^ 53")
  case True
  then show ?thesis by (simp add: round53_def)
next
  case False
  have lo: "(2::nat) ^ (52 + e) \<le> j * 2 ^ e"
    using assms(1) by (simp add: power_add)
  have hi: "j * 2 ^ e < 2 ^ Suc (52 + e)"
    using assms(2) by (simp add: power_add)
  have b: "bitLength (j * 2 ^ e) = 53 + e"
    using bitLength_eq [OF lo hi] by simp
  have "roundToEven (j * 2 ^ e) (2 ^ e) = j * 2 ^ e"
    by (simp add: roundToEven_def)
  with False b show ?thesis by (simp add: round53_def)
qed

lemma round53_form:
  assumes "2 ^ 53 \<le> n"
  shows "\<exists>j e. 2 ^ 52 \<le> j \<and> j < 2 ^ 53 \<and> round53 n = j * 2 ^ e"
proof -
  define L where "L = bitLength n"
  have big: "\<not> n < 2 ^ 53" using assms by simp
  then have "\<not> L \<le> 53" unfolding L_def by (simp add: bitLength_le)
  then have "L = 54 + (L - 54)" by simp
  then obtain e where L: "L = 54 + e" ..
  define q :: nat where "q = 2 ^ Suc e"
  define k where "k = n div q"
  have nhi: "n < 2 ^ L" using bitLength_le [of n L] L_def by simp
  have nlo: "2 ^ (53 + e) \<le> n"
  proof -
    have "\<not> bitLength n \<le> 53 + e" using L L_def by simp
    then show ?thesis by (simp add: bitLength_le)
  qed
  have qpos: "0 < q" by (simp add: q_def)
  have klo: "2 ^ 52 \<le> k"
  proof -
    have "(2::nat) ^ (53 + e) = 2 ^ 52 * q" by (simp add: q_def power_add)
    with nlo have "2 ^ 52 * q \<le> n" by simp
    then show ?thesis unfolding k_def using qpos
      by (simp add: less_eq_div_iff_mult_less_eq)
  qed
  have khi: "k < 2 ^ 53"
  proof -
    have "(2::nat) ^ L = 2 ^ 53 * q" by (simp add: q_def L power_add)
    with nhi have "n < 2 ^ 53 * q" by simp
    then show ?thesis unfolding k_def using qpos
      by (simp add: div_less_iff_less_mult)
  qed
  have r: "round53 n = roundToEven n q"
    using big L L_def by (simp add: round53_def q_def)
  have "roundToEven n q = k * q \<or> roundToEven n q = (k + 1) * q"
    by (simp add: roundToEven_def k_def Let_def)
  then show ?thesis
  proof
    assume "roundToEven n q = k * q"
    with r have "round53 n = k * 2 ^ Suc e" by (simp add: q_def)
    with klo khi show ?thesis by blast
  next
    assume a: "roundToEven n q = (k + 1) * q"
    show ?thesis
    proof (cases "k + 1 < 2 ^ 53")
      case True
      from a r have "round53 n = (k + 1) * 2 ^ Suc e" by (simp add: q_def)
      moreover from klo have "2 ^ 52 \<le> k + 1" by simp
      ultimately show ?thesis using True by blast
    next
      case False
      with khi have "k + 1 = 2 ^ 53" by simp
      with a r have "round53 n = 2 ^ 52 * 2 ^ Suc (Suc e)" by (simp add: q_def)
      moreover have "(2::nat) ^ 52 \<le> 2 ^ 52" "(2::nat) ^ 52 < 2 ^ 53" by simp_all
      ultimately show ?thesis by blast
    qed
  qed
qed

lemma round53_idem: "round53 (round53 n) = round53 n"
proof (cases "n < 2 ^ 53")
  case True
  then show ?thesis by (simp add: round53_def)
next
  case False
  then have "2 ^ 53 \<le> n" by simp
  from round53_form [OF this] obtain j e
    where "2 ^ 52 \<le> j" "j < 2 ^ 53" "round53 n = j * 2 ^ e" by blast
  then show ?thesis by (simp add: round53_scaled)
qed

lemma toDbl_small: "n < 2 ^ 53 \<Longrightarrow> toDbl n = Fin n"
proof -
  assume a: "n < 2 ^ 53"
  have "(2::nat) ^ 53 < 2 ^ 1024" by (rule power_strict_increasing) simp_all
  with a have "n < 2 ^ 1024" by (rule less_trans)
  with a show ?thesis by (simp add: toDbl_def round53_small)
qed

lemma toDbl_Fin: "toDbl n = Fin m \<Longrightarrow> toDbl m = Fin m"
  by (auto simp: toDbl_def Let_def round53_idem split: if_splits)

lemma number_Fin:
  assumes "Fin m \<in> insert NaN (insert PosInf (range toDbl))"
  shows "toDbl m = Fin m"
proof -
  from assms obtain n where "toDbl n = Fin m" by auto
  then show ?thesis by (rule toDbl_Fin)
qed

lemma addDbl_zero:
  assumes "x \<in> insert NaN (insert PosInf (range toDbl))"
  shows "addDbl (Fin 0) x = x"
proof (cases x)
  case (Fin m)
  with assms have "toDbl m = Fin m" by (intro number_Fin) simp
  with Fin show ?thesis by simp
qed simp_all

lemma mulDbl_one:
  assumes "x \<in> insert NaN (insert PosInf (range toDbl))"
  shows "mulDbl x (Fin 1) = x"
proof (cases x)
  case (Fin m)
  with assms have "toDbl m = Fin m" by (intro number_Fin) simp
  with Fin show ?thesis by simp
qed simp_all

subsection \<open>Arithmetic of Numbers\<close>

text \<open>
  Below \<open>2^53\<close> the literal \<open>numberOf n\<close> holds \<open>n\<close> and sums and products are exact;
  adding 0 and multiplying by 1 change no Number.
\<close>

lemma natValue_numberOf: "n < 2 ^ 53 \<Longrightarrow> natValue (numberOf n) = Some n"
  by transfer (simp add: toDbl_small)

lemma natOf_numberOf: "n < 2 ^ 53 \<Longrightarrow> natOf (numberOf n) = n"
  by (simp add: natOf_def natValue_numberOf)

lemma numberOf_natValue: "natValue x = Some n \<Longrightarrow> x = numberOf n"
proof transfer
  fix x :: dbl and n
  assume "x \<in> insert NaN (insert PosInf (range toDbl))"
    and "(case x of Fin n \<Rightarrow> Some n | _ \<Rightarrow> None) = Some n"
  then have "Fin n \<in> insert NaN (insert PosInf (range toDbl))" and "x = Fin n"
    by (auto split: dbl.splits)
  then show "x = toDbl n" by (simp only: number_Fin)
qed

lemma jsAdd_natValue:
  "natValue x = Some a \<Longrightarrow> natValue y = Some b \<Longrightarrow> jsAdd x y = numberOf (a + b)"
  by transfer (auto split: dbl.splits)

lemma jsMul_natValue:
  "natValue x = Some a \<Longrightarrow> natValue y = Some b \<Longrightarrow> jsMul x y = numberOf (a * b)"
  by transfer (auto split: dbl.splits)

lemma jsAdd_numberOf:
  "a < 2 ^ 53 \<Longrightarrow> b < 2 ^ 53 \<Longrightarrow> jsAdd (numberOf a) (numberOf b) = numberOf (a + b)"
  by (simp add: jsAdd_natValue natValue_numberOf)

lemma jsMul_numberOf:
  "a < 2 ^ 53 \<Longrightarrow> b < 2 ^ 53 \<Longrightarrow> jsMul (numberOf a) (numberOf b) = numberOf (a * b)"
  by (simp add: jsMul_natValue natValue_numberOf)

lemma numberOf_eq_iff:
  "a < 2 ^ 53 \<Longrightarrow> b < 2 ^ 53 \<Longrightarrow> numberOf a = numberOf b \<longleftrightarrow> a = b"
  by (metis natValue_numberOf option.inject)

lemma jsAdd_zero: "jsAdd (numberOf 0) x = x"
  by transfer (simp add: toDbl_small addDbl_zero)

lemma jsMul_one: "jsMul x (numberOf 1) = x"
  by transfer (simp add: toDbl_small mulDbl_one del: One_nat_def)

lemma foldl_jsAdd_exact:
  "safeTotal (a # xs) \<Longrightarrow> foldl jsAdd a xs = numberOf (exactSum (a # xs))"
proof (induction xs arbitrary: a)
  case Nil
  then obtain n where "natValue a = Some n" by (auto simp: safeTotal_def)
  then show ?case by (simp add: natOf_def exactSum_def numberOf_natValue)
next
  case (Cons x xs)
  from Cons.prems obtain n m where a: "natValue a = Some n" and x: "natValue x = Some m"
    by (auto simp: safeTotal_def)
  have na: "natOf a = n" "natOf x = m" using a x by (simp_all add: natOf_def)
  from Cons.prems na have lt: "n + m + exactSum xs < 2 ^ 53"
    by (simp add: safeTotal_def exactSum_def)
  then have nm: "n + m < 2 ^ 53" by simp
  have s: "jsAdd a x = numberOf (n + m)" using a x by (rule jsAdd_natValue)
  have nn: "natOf (numberOf (n + m)) = n + m" using nm by (rule natOf_numberOf)
  have "safeTotal (numberOf (n + m) # xs)"
    using Cons.prems lt nm nn by (simp add: safeTotal_def exactSum_def natValue_numberOf)
  then have "foldl jsAdd (numberOf (n + m)) xs = numberOf (exactSum (numberOf (n + m) # xs))"
    by (rule Cons.IH)
  with s na nn show ?case by (simp add: exactSum_def add.assoc)
qed

text \<open>The doubles next to \<open>2^53\<close>.\<close>

lemma round53_54:
  "2 ^ 53 \<le> n \<Longrightarrow> n < 2 ^ 54 \<Longrightarrow> round53 n = roundToEven n 2"
proof -
  assume a: "2 ^ 53 \<le> n" "n < 2 ^ 54"
  then have "bitLength n = Suc 53" by (intro bitLength_eq) simp_all
  with a show ?thesis by (simp add: round53_def)
qed

lemma numberOf_2_53_1: "numberOf 9007199254740993 = numberOf 9007199254740992"
  by transfer (simp add: toDbl_def round53_54 roundToEven_def)

lemma natValue_2_53: "natValue (numberOf 9007199254740992) = Some 9007199254740992"
  by transfer (simp add: toDbl_def round53_54 roundToEven_def)

lemma natValue_2_53_2: "natValue (numberOf 9007199254740994) = Some 9007199254740994"
  by transfer (simp add: toDbl_def round53_54 roundToEven_def)

lemma jsAdd_2_53_1: "jsAdd (numberOf 9007199254740992) (numberOf 1) = numberOf 9007199254740992"
  using jsAdd_natValue [OF natValue_2_53 natValue_numberOf [of 1]]
  by (simp add: numberOf_2_53_1)

subsection \<open>The string of a number\<close>

text \<open>Reading the digits of \<open>numberToString n\<close> gives \<open>n\<close> back, so distinct numbers have
  distinct property names.\<close>

lemma digitValue_digitChar: "digitValue (digitChar d) = d mod 10"
proof -
  have "k = 0 \<or> k = 1 \<or> k = 2 \<or> k = 3 \<or> k = 4 \<or> k = 5 \<or> k = 6 \<or> k = 7 \<or> k = 8
          \<or> k = 9" if "k < 10" for k :: nat
    using that by arith
  then have "digitValue (''0123456789'' ! k) = k" if "k < 10" for k
    using that by (elim meta_allE [of _ k] meta_impE disjE; simp add: digitValue_def)
  then show ?thesis by (simp add: digitChar_def)
qed

lemma digitsValue_snoc: "digitsValue (s @ [c]) = 10 * digitsValue s + digitValue c"
  by (simp add: digitsValue_def)

lemma digitsValue_numberToString: "digitsValue (numberToString n) = n"
proof (induction n rule: numberToString.induct)
  case (1 n)
  show ?case
  proof (cases "n < 10")
    case True
    then show ?thesis
      by (subst numberToString.simps) (simp add: digitsValue_def digitValue_digitChar)
  next
    case False
    then have "digitsValue (numberToString (n div 10)) = n div 10" by (rule "1.IH")
    with False show ?thesis
      by (subst numberToString.simps) (simp add: digitsValue_snoc digitValue_digitChar)
  qed
qed

lemma numberToString_inject: "numberToString m = numberToString n \<longleftrightarrow> m = n"
  by (metis digitsValue_numberToString)

lemma toPropertyKey_IdNumber_inject:
  "toPropertyKey (IdNumber m) = toPropertyKey (IdNumber n) \<longleftrightarrow> m = n"
  by (simp add: numberToString_inject word_unat_eq_iff)

subsection \<open>Well-typed calls\<close>

text \<open>What a call with well-typed arguments does: it throws when the id set that it reads
  has an own property \<^verbatim>\<open>hasOwnProperty\<close>, and is one record update otherwise.\<close>

lemma addBuffer_Some:
  "addBuffer (Some b) (Some c) this =
     (if ''hasOwnProperty'' \<in> bufferIdSet this then (Throw TypeError, this)
      else (Normal,
            this\<lparr>geometryByteLength :=
                    (if toPropertyKey (buffer_id b) \<in> bufferIdSet this
                     then geometryByteLength this
                     else jsAdd (geometryByteLength this)
                            (jsMul (buffer_sizeInBytes b)
                               (if c then numberOf 2 else numberOf 1))),
                  bufferIdSet := setTrue (bufferIdSet this) (buffer_id b)\<rparr>))"
  by (simp add: addBuffer_def Check_typeOf_object_def Check_typeOf_bool_def
      hasOwnProperty_def Let_def)

lemma addTexture_Some:
  "addTexture (Some t) this =
     (if ''hasOwnProperty'' \<in> textureIdSet this then (Throw TypeError, this)
      else (Normal,
            this\<lparr>texturesByteLength :=
                    (if toPropertyKey (texture_id t) \<in> textureIdSet this
                     then texturesByteLength this
                     else jsAdd (texturesByteLength this) (texture_sizeInBytes t)),
                  textureIdSet := setTrue (textureIdSet this) (texture_id t)\<rparr>))"
  by (simp add: addTexture_def Check_typeOf_object_def hasOwnProperty_def Let_def)

subsection \<open>The getter, the reset and the registry\<close>

text \<open>
  The loop of the getter adds the byte lengths, in the store of the read, of the
  references in the registry, one after the other from 0; \<open>clear\<close> gives the state of the
  constructor; a well-typed call of \<open>addBatchTexture\<close> appends the entry when the id is
  new.
\<close>

lemma batchTexturesLoop_foldl:
  "len = length vals \<Longrightarrow> i \<le> len \<Longrightarrow>
     batchTexturesLoop h vals len i memory =
       foldl jsAdd memory (map (\<lambda>r. batchTexture_byteLength (h r)) (drop i vals))"
proof (induction h vals len i memory rule: batchTexturesLoop.induct)
  case (1 h vals len i memory)
  show ?case
  proof (cases "i < len")
    case True
    with "1.prems" have d: "drop i vals = vals ! i # drop (Suc i) vals"
      by (simp add: Cons_nth_drop_Suc)
    from True "1.prems" have
      "batchTexturesLoop h vals len (Suc i)
         (jsAdd memory (batchTexture_byteLength (h (vals ! i)))) =
       foldl jsAdd (jsAdd memory (batchTexture_byteLength (h (vals ! i))))
         (map (\<lambda>r. batchTexture_byteLength (h r)) (drop (Suc i) vals))"
      by (intro "1.IH") simp_all
    with True d show ?thesis
      by (simp add: batchTexturesLoop.simps [of h vals len i])
  next
    case False
    with "1.prems" have "i = len" by simp
    then show ?thesis
      using "1.prems" by (subst batchTexturesLoop.simps) simp
  qed
qed

lemma batchTexturesByteLength_foldl:
  "batchTexturesByteLength h this =
     foldl jsAdd (numberOf 0)
       (map (\<lambda>r. batchTexture_byteLength (h r)) (aa_values (batchTextureIdMap this)))"
  by (simp add: batchTexturesByteLength_def Let_def aa_length_def aa_values_def
      batchTexturesLoop_foldl)

lemma clear_new: "clear this = newStatistics"
  by (simp add: clear_def newStatistics_def aa_removeAll_def)

lemma addBatchTexture_Some:
  "addBatchTexture h (Some r) this =
     (Normal,
      if aa_contains (batchTextureIdMap this) (batchTexture_id (h r)) then this
      else this\<lparr>batchTextureIdMap := batchTextureIdMap this @ [(batchTexture_id (h r), r)]\<rparr>)"
proof -
  have "filter (\<lambda>e. fst e \<noteq> k) a = a" if "map_of a k = None" for a :: "(js_id \<times> ref) list" and k
    using that by (induction a) (auto split: if_splits)
  then show ?thesis
    by (simp add: addBatchTexture_def Check_typeOf_object_def aa_contains_def aa_set_def)
qed

lemma firsts_keys: "fst ` set (firsts seen xs) = fst ` set xs - seen"
  by (induction seen xs rule: firsts.induct) auto

lemma firsts_distinct: "distinct (map fst (firsts seen xs))"
  by (induction seen xs rule: firsts.induct) (auto simp: firsts_keys)

lemma aa_contains_keys: "aa_contains a k \<longleftrightarrow> k \<in> fst ` set a"
  by (simp add: aa_contains_def map_of_eq_None_iff)

lemma registerAll_Normal: "fst (registerAll cs this) = Normal"
proof (induction cs arbitrary: this)
  case Nil
  show ?case by simp
next
  case (Cons c cs)
  show ?case by (cases c) (simp add: addBatchTexture_Some Cons.IH)
qed

lemma registerAll_map:
  "batchTextureIdMap (snd (registerAll cs this)) =
     batchTextureIdMap this @
       firsts (fst ` set (batchTextureIdMap this)) (batchTextureRegistrations cs)"
proof (induction cs arbitrary: this)
  case Nil
  show ?case by (simp add: batchTextureRegistrations_def)
next
  case (Cons c cs)
  obtain h r where c: "c = (h, r)" by (cases c)
  show ?case
  proof (cases "aa_contains (batchTextureIdMap this) (batchTexture_id (h r))")
    case True
    then show ?thesis
      using Cons.IH [of this] c
      by (simp add: addBatchTexture_Some batchTextureRegistrations_def aa_contains_keys)
  next
    case False
    then show ?thesis
      using Cons.IH [of "this\<lparr>batchTextureIdMap :=
                            batchTextureIdMap this @ [(batchTexture_id (h r), r)]\<rparr>"] c
      by (simp add: addBatchTexture_Some batchTextureRegistrations_def aa_contains_keys)
  qed
qed


subsection \<open>Batch textures\<close>



subsection \<open>Reset\<close>

text \<open>
  Claim C3. After \<open>clear\<close>, called in any state, the five totals are zero, the id sets
  and the registry are empty and \<open>batchTexturesByteLength\<close> reads zero; the object is in
  the state the constructor gives, so every buffer, texture and batch texture registered
  before is counted again as if it had never been seen.
\<close>

theorem clear_resets_everything:
  "clear this = newStatistics
   \<and> pointsLength (clear this) = numberOf 0
   \<and> trianglesLength (clear this) = numberOf 0
   \<and> geometryByteLength (clear this) = numberOf 0
   \<and> texturesByteLength (clear this) = numberOf 0
   \<and> propertyTablesByteLength (clear this) = numberOf 0
   \<and> bufferIdSet (clear this) = {}
   \<and> textureIdSet (clear this) = {}
   \<and> aa_length (batchTextureIdMap (clear this)) = 0
   \<and> batchTexturesByteLength h (clear this) = numberOf 0
   \<and> addBuffer (Some b) (Some c) (clear this) =
       (Normal, newStatistics\<lparr>geometryByteLength :=
                                 jsMul (buffer_sizeInBytes b) (if c then numberOf 2 else numberOf 1),
                               bufferIdSet := setTrue {} (buffer_id b)\<rparr>)
   \<and> addTexture (Some t) (clear this) =
       (Normal, newStatistics\<lparr>texturesByteLength := texture_sizeInBytes t,
                               textureIdSet := setTrue {} (texture_id t)\<rparr>)
   \<and> addBatchTexture h (Some r) (clear this) =
       (Normal, newStatistics\<lparr>batchTextureIdMap := [(batchTexture_id (h r), r)]\<rparr>)
   \<and> batchTexturesByteLength h' (snd (addBatchTexture h (Some r) (clear this))) =
       batchTexture_byteLength (h' r)
   \<and> run cs (clear this) = run cs newStatistics
   \<and> registerAll rs (clear this) = registerAll rs newStatistics"
proof -
  have n: "clear this = newStatistics" by (rule clear_new)
  have "batchTexturesByteLength h newStatistics = numberOf 0"
    by (simp add: batchTexturesByteLength_foldl aa_values_def newStatistics_def)
  moreover have "addBatchTexture h (Some r) newStatistics =
       (Normal, newStatistics\<lparr>batchTextureIdMap := [(batchTexture_id (h r), r)]\<rparr>)"
    by (simp add: addBatchTexture_Some aa_contains_def newStatistics_def)
  moreover have "addBuffer (Some b) (Some c) newStatistics =
       (Normal, newStatistics\<lparr>geometryByteLength :=
                                 jsMul (buffer_sizeInBytes b) (if c then numberOf 2 else numberOf 1),
                               bufferIdSet := setTrue {} (buffer_id b)\<rparr>)"
    by (simp add: addBuffer_Some newStatistics_def jsAdd_zero)
  moreover have "addTexture (Some t) newStatistics =
       (Normal, newStatistics\<lparr>texturesByteLength := texture_sizeInBytes t,
                               textureIdSet := setTrue {} (texture_id t)\<rparr>)"
    by (simp add: addTexture_Some newStatistics_def jsAdd_zero)
  moreover have "pointsLength newStatistics = numberOf 0" "trianglesLength newStatistics = numberOf 0"
    "geometryByteLength newStatistics = numberOf 0" "texturesByteLength newStatistics = numberOf 0"
    "propertyTablesByteLength newStatistics = numberOf 0" "bufferIdSet newStatistics = {}"
    "textureIdSet newStatistics = {}" "aa_length (batchTextureIdMap newStatistics) = 0"
    by (simp_all add: newStatistics_def aa_length_def)
  ultimately show ?thesis
    unfolding n by (simp add: batchTexturesByteLength_foldl aa_values_def jsAdd_zero)
qed

subsection \<open>Frame conditions\<close>

text \<open>
  Claim C9. Whatever its argument and however it completes, \<open>addTexture\<close> changes at most
  \<open>texturesByteLength\<close> and the texture id set, \<open>addBuffer\<close> changes at most
  \<open>geometryByteLength\<close> and the buffer id set, and \<open>addBatchTexture\<close> changes at most
  the batch texture registry.
\<close>

theorem registration_frame:
  "(addTexture texture this = (outcome, this') \<longrightarrow>
      pointsLength this' = pointsLength this \<and> trianglesLength this' = trianglesLength this
      \<and> geometryByteLength this' = geometryByteLength this
      \<and> propertyTablesByteLength this' = propertyTablesByteLength this
      \<and> bufferIdSet this' = bufferIdSet this
      \<and> batchTextureIdMap this' = batchTextureIdMap this)
   \<and> (addBuffer buffer hasCpuCopy that = (outcomeB, that') \<longrightarrow>
      pointsLength that' = pointsLength that \<and> trianglesLength that' = trianglesLength that
      \<and> texturesByteLength that' = texturesByteLength that
      \<and> propertyTablesByteLength that' = propertyTablesByteLength that
      \<and> textureIdSet that' = textureIdSet that
      \<and> batchTextureIdMap that' = batchTextureIdMap that)
   \<and> (addBatchTexture h batchTexture other = (outcomeC, other') \<longrightarrow>
      pointsLength other' = pointsLength other \<and> trianglesLength other' = trianglesLength other
      \<and> geometryByteLength other' = geometryByteLength other
      \<and> texturesByteLength other' = texturesByteLength other
      \<and> propertyTablesByteLength other' = propertyTablesByteLength other
      \<and> bufferIdSet other' = bufferIdSet other
      \<and> textureIdSet other' = textureIdSet other)"
proof (intro conjI impI)
qed (auto simp: addTexture_def addBuffer_def addBatchTexture_def Check_typeOf_object_def
      Check_typeOf_bool_def hasOwnProperty_def Let_def split: option.splits if_splits)

theorem registration_frame_witness:
  "addTexture (Some \<lparr>texture_id = IdString ''T'', texture_sizeInBytes = numberOf 40\<rparr>)
       newStatistics =
     (Normal, newStatistics\<lparr>texturesByteLength := numberOf 40, textureIdSet := {''T''}\<rparr>)
   \<and> addBuffer (Some \<lparr>buffer_id = IdString ''A'', buffer_sizeInBytes = numberOf 100\<rparr>) (Some True)
         newStatistics =
     (Normal, newStatistics\<lparr>geometryByteLength := numberOf 200, bufferIdSet := {''A''}\<rparr>)
   \<and> addBatchTexture
         (\<lambda>a. \<lparr>batchTexture_id = IdString ''O'', batchTexture_byteLength = numberOf 0\<rparr>)
         (Some 1) newStatistics =
     (Normal, newStatistics\<lparr>batchTextureIdMap := [(IdString ''O'', 1)]\<rparr>)
   \<and> geometryByteLength
         (newStatistics\<lparr>texturesByteLength := numberOf 40, textureIdSet := {''T''}\<rparr>) =
       geometryByteLength newStatistics
   \<and> texturesByteLength
         (newStatistics\<lparr>geometryByteLength := numberOf 200, bufferIdSet := {''A''}\<rparr>) =
       texturesByteLength newStatistics
   \<and> bufferIdSet (newStatistics\<lparr>batchTextureIdMap := [(IdString ''O'', 1)]\<rparr>) =
       bufferIdSet newStatistics"
  using registration_frame
    [where texture = "Some \<lparr>texture_id = IdString ''T'', texture_sizeInBytes = numberOf 40\<rparr>"
       and this = newStatistics and outcome = Normal
       and this' = "newStatistics\<lparr>texturesByteLength := numberOf 40, textureIdSet := {''T''}\<rparr>"
       and buffer = "Some \<lparr>buffer_id = IdString ''A'', buffer_sizeInBytes = numberOf 100\<rparr>"
       and hasCpuCopy = "Some True" and that = newStatistics and outcomeB = Normal
       and that' = "newStatistics\<lparr>geometryByteLength := numberOf 200, bufferIdSet := {''A''}\<rparr>"
       and h = "\<lambda>a. \<lparr>batchTexture_id = IdString ''O'', batchTexture_byteLength = numberOf 0\<rparr>"
       and batchTexture = "Some 1" and other = newStatistics and outcomeC = Normal
       and other' = "newStatistics\<lparr>batchTextureIdMap := [(IdString ''O'', 1)]\<rparr>"]
  by (simp add: addBuffer_Some addTexture_Some addBatchTexture_Some aa_contains_def
      newStatistics_def setTrue_def jsAdd_zero jsMul_numberOf)

subsection \<open>Plain objects and sequences of calls\<close>

text \<open>
  An assignment never removes a property; it adds the name unless the name is
  \<^verbatim>\<open>__proto__\<close>. A call for an identity that the id set holds changes nothing. A sequence
  of calls runs as far as its first call that throws.
\<close>

lemma jsMul_one_Suc: "jsMul x (numberOf (Suc 0)) = x"
  using jsMul_one [of x] by simp


lemma setTrue_ordinary:
  "toPropertyKey ident \<noteq> ''__proto__'' \<Longrightarrow> setTrue obj ident = insert (toPropertyKey ident) obj"
  by (simp add: setTrue_def)

lemma setTrue_mono: "obj \<subseteq> setTrue obj ident"
  by (auto simp: setTrue_def)



lemma perform_bufferIdSet_mono: "bufferIdSet this \<subseteq> bufferIdSet (snd (perform c this))"
  by (cases c) (auto simp: addBuffer_Some addTexture_Some setTrue_def)

lemma perform_textureIdSet_mono: "textureIdSet this \<subseteq> textureIdSet (snd (perform c this))"
  by (cases c) (auto simp: addBuffer_Some addTexture_Some setTrue_def)

lemma run_Cons:
  "run (c # cs) this =
     (if fst (perform c this) = Normal then run cs (snd (perform c this)) else perform c this)"
  by (cases "perform c this"; cases "fst (perform c this)") auto

lemma run_Cons_Normal:
  assumes "fst (run (c # cs) this) = Normal"
  shows "fst (perform c this) = Normal" and "fst (run cs (snd (perform c this))) = Normal"
proof -
  show p: "fst (perform c this) = Normal"
  proof (rule ccontr)
    assume "fst (perform c this) \<noteq> Normal"
    with assms show False unfolding run_Cons by simp
  qed
  with assms show "fst (run cs (snd (perform c this))) = Normal"
    unfolding run_Cons by simp
qed



lemma run_textureIdSet_mono: "textureIdSet this \<subseteq> textureIdSet (snd (run cs this))"
proof (induction cs arbitrary: this)
  case Nil
  show ?case by simp
next
  case (Cons c cs)
  have "textureIdSet this \<subseteq> textureIdSet (snd (perform c this))"
    by (rule perform_textureIdSet_mono)
  also have "\<dots> \<subseteq> textureIdSet (snd (run cs (snd (perform c this))))"
    by (rule Cons.IH)
  finally show ?case unfolding run_Cons using perform_bufferIdSet_mono [of this c]
      perform_textureIdSet_mono [of this c] by auto
qed

subsection \<open>Repeated registration of a buffer\<close>




subsection \<open>The first registration of a buffer\<close>

text \<open>
  Claim C4, as stated: for a buffer whose identity is not in the buffer id set,
  \<open>addBuffer\<close> adds exactly twice the size (flag true) or once the size (flag false) to
  \<open>geometryByteLength\<close> and leaves all other fields of the record unchanged. This fails
  in two ways. The call also inserts the identity into the buffer id set, which is a
  field of the record (first three conjuncts). And the addition is the addition of
  doubles: at a total of \<open>2^53\<close> a buffer of 1 byte adds nothing (last two conjuncts).
\<close>

theorem addBuffer_changes_bufferIdSet:
  "hasOwnProperty (bufferIdSet newStatistics) (buffer_id bufferB) = Inr False
   \<and> addBuffer (Some bufferB) (Some True) newStatistics
       \<noteq> (Normal, newStatistics\<lparr>geometryByteLength := numberOf (0 + 2 * 50)\<rparr>)
   \<and> bufferIdSet (snd (addBuffer (Some bufferB) (Some True) newStatistics))
       \<noteq> bufferIdSet newStatistics
   \<and> hasOwnProperty
        (bufferIdSet (newStatistics\<lparr>geometryByteLength := numberOf 9007199254740992\<rparr>))
        (buffer_id \<lparr>buffer_id = IdString ''B'', buffer_sizeInBytes = numberOf 1\<rparr>) = Inr False
   \<and> geometryByteLength
        (snd (addBuffer (Some \<lparr>buffer_id = IdString ''B'', buffer_sizeInBytes = numberOf 1\<rparr>)
                (Some False) (newStatistics\<lparr>geometryByteLength := numberOf 9007199254740992\<rparr>)))
       = numberOf 9007199254740992"
  by (simp add: addBuffer_Some hasOwnProperty_def setTrue_def newStatistics_def bufferB_def
      jsMul_one jsAdd_zero jsMul_numberOf numberOf_eq_iff jsAdd_2_53_1 del: One_nat_def)

text \<open>
  Claim C4, amended: for a buffer whose identity is not in the buffer id set (and is
  not \<^verbatim>\<open>__proto__\<close>), in a state where the look-up in the id set returns, and as long as
  the new total is below \<open>2^53\<close>, \<open>addBuffer\<close> adds exactly twice the size (flag true)
  or once the size (flag false) to \<open>geometryByteLength\<close>, inserts the identity into the
  buffer id set, and leaves all other fields of the record unchanged.
\<close>

theorem addBuffer_new_identity:
  assumes "hasOwnProperty (bufferIdSet this) (buffer_id b) = Inr False"
    and "toPropertyKey (buffer_id b) \<noteq> ''__proto__''"
    and "geometryByteLength this = numberOf g"
    and "buffer_sizeInBytes b = numberOf n"
  shows "(g + 2 * n < 2 ^ 53 \<longrightarrow>
            addBuffer (Some b) (Some True) this =
              (Normal, this\<lparr>geometryByteLength := numberOf (g + 2 * n),
                            bufferIdSet := insert (toPropertyKey (buffer_id b)) (bufferIdSet this)\<rparr>))
         \<and> (g + 1 * n < 2 ^ 53 \<longrightarrow>
            addBuffer (Some b) (Some False) this =
              (Normal, this\<lparr>geometryByteLength := numberOf (g + 1 * n),
                            bufferIdSet := insert (toPropertyKey (buffer_id b)) (bufferIdSet this)\<rparr>))"
proof -
  from assms(1) have np: "''hasOwnProperty'' \<notin> bufferIdSet this"
    and nk: "toPropertyKey (buffer_id b) \<notin> bufferIdSet this"
    by (auto simp: hasOwnProperty_def split: if_splits)
  have two: "(2::nat) < 2 ^ 53" and one: "(1::nat) < 2 ^ 53" by simp_all
  show ?thesis
  proof (intro conjI impI)
    assume lt: "g + 2 * n < 2 ^ 53"
    then have "g < 2 ^ 53" "n < 2 ^ 53" "n * 2 < 2 ^ 53" by simp_all
    then have "jsAdd (numberOf g) (jsMul (numberOf n) (numberOf 2)) = numberOf (g + 2 * n)"
      using lt by (simp add: jsMul_numberOf jsAdd_numberOf mult.commute)
    then show "addBuffer (Some b) (Some True) this =
              (Normal, this\<lparr>geometryByteLength := numberOf (g + 2 * n),
                            bufferIdSet := insert (toPropertyKey (buffer_id b)) (bufferIdSet this)\<rparr>)"
      using np nk assms by (simp add: addBuffer_Some setTrue_ordinary)
  next
    assume lt: "g + 1 * n < 2 ^ 53"
    then have "g < 2 ^ 53" "n < 2 ^ 53" by simp_all
    then have "jsAdd (numberOf g) (jsMul (numberOf n) (numberOf 1)) = numberOf (g + 1 * n)"
      using lt by (simp add: jsMul_one jsMul_one_Suc jsAdd_numberOf)
    then show "addBuffer (Some b) (Some False) this =
              (Normal, this\<lparr>geometryByteLength := numberOf (g + 1 * n),
                            bufferIdSet := insert (toPropertyKey (buffer_id b)) (bufferIdSet this)\<rparr>)"
      using np nk assms by (simp add: addBuffer_Some setTrue_ordinary)
  qed
qed

theorem addBuffer_new_identity_witness:
  "hasOwnProperty (bufferIdSet newStatistics) (buffer_id bufferB) = Inr False
   \<and> toPropertyKey (buffer_id bufferB) \<noteq> ''__proto__''
   \<and> geometryByteLength newStatistics = numberOf 0
   \<and> buffer_sizeInBytes bufferB = numberOf 50
   \<and> (0::nat) + 2 * 50 < 2 ^ 53
   \<and> addBuffer (Some bufferB) (Some True) newStatistics
       = (Normal, newStatistics\<lparr>geometryByteLength := numberOf 100, bufferIdSet := {''B''}\<rparr>)
   \<and> addBuffer (Some bufferB) (Some False) newStatistics
       = (Normal, newStatistics\<lparr>geometryByteLength := numberOf 50, bufferIdSet := {''B''}\<rparr>)"
proof -
  have h: "hasOwnProperty (bufferIdSet newStatistics) (buffer_id bufferB) = Inr False"
    by (simp add: hasOwnProperty_def newStatistics_def bufferB_def)
  have k: "toPropertyKey (buffer_id bufferB) \<noteq> ''__proto__''"
    by (simp add: bufferB_def)
  have g: "geometryByteLength newStatistics = numberOf 0"
    by (simp add: newStatistics_def)
  have n: "buffer_sizeInBytes bufferB = numberOf 50"
    by (simp add: bufferB_def)
  show ?thesis
    using h k g n addBuffer_new_identity [OF h k g n] by (simp add: bufferB_def newStatistics_def)
qed

subsection \<open>Errors\<close>




subsection \<open>Identity is the property name of the id\<close>




subsection \<open>Sequences of registrations\<close>




lemma bufferBytes_pair:
  "bufferBytes (n, f) = jsMul n (if f then numberOf 2 else numberOf 1)"
  by (simp add: bufferBytes_def)

lemma run_geometry:
  "noProto cs \<Longrightarrow> fst (run cs this) = Normal \<Longrightarrow>
     geometryByteLength (snd (run cs this)) =
       foldl jsAdd (geometryByteLength this)
         (map (bufferBytes \<circ> snd) (firsts (bufferIdSet this) (bufferRegistrations cs)))"
proof (induction cs arbitrary: this)
  case Nil
  show ?case by simp
next
  case (Cons c cs)
  from Cons.prems(2) have p: "fst (perform c this) = Normal"
    and r: "fst (run cs (snd (perform c this))) = Normal"
    by (rule run_Cons_Normal)+
  let ?s = "snd (perform c this)"
  from Cons.prems(1) have n: "noProto cs" by (cases c) simp_all
  have ih: "geometryByteLength (snd (run cs ?s)) =
       foldl jsAdd (geometryByteLength ?s)
         (map (bufferBytes \<circ> snd) (firsts (bufferIdSet ?s) (bufferRegistrations cs)))"
    using n r by (rule Cons.IH)
  have e: "snd (run (c # cs) this) = snd (run cs ?s)"
    using p by (simp add: run_Cons del: run.simps)
  show ?case
  proof (cases c)
    case (AddBuffer b f)
    with Cons.prems(1) have k: "toPropertyKey (buffer_id b) \<noteq> ''__proto__''" by simp
    from p AddBuffer have np: "''hasOwnProperty'' \<notin> bufferIdSet this"
      by (auto simp: addBuffer_Some split: if_splits)
    show ?thesis
      unfolding e ih using AddBuffer np k
      by (simp add: addBuffer_Some setTrue_ordinary bufferBytes_pair insert_absorb comp_def)
  next
    case (AddTexture t)
    from p AddTexture have np: "''hasOwnProperty'' \<notin> textureIdSet this"
      by (auto simp: addTexture_Some split: if_splits)
    show ?thesis
      unfolding e ih using AddTexture np by (simp add: addTexture_Some comp_def)
  qed
qed

lemma run_textures:
  "noProto cs \<Longrightarrow> fst (run cs this) = Normal \<Longrightarrow>
     texturesByteLength (snd (run cs this)) =
       foldl jsAdd (texturesByteLength this)
         (map snd (firsts (textureIdSet this) (textureRegistrations cs)))"
proof (induction cs arbitrary: this)
  case Nil
  show ?case by simp
next
  case (Cons c cs)
  from Cons.prems(2) have p: "fst (perform c this) = Normal"
    and r: "fst (run cs (snd (perform c this))) = Normal"
    by (rule run_Cons_Normal)+
  let ?s = "snd (perform c this)"
  from Cons.prems(1) have n: "noProto cs" by (cases c) simp_all
  have ih: "texturesByteLength (snd (run cs ?s)) =
       foldl jsAdd (texturesByteLength ?s)
         (map snd (firsts (textureIdSet ?s) (textureRegistrations cs)))"
    using n r by (rule Cons.IH)
  have e: "snd (run (c # cs) this) = snd (run cs ?s)"
    using p by (simp add: run_Cons del: run.simps)
  show ?case
  proof (cases c)
    case (AddBuffer b f)
    from p AddBuffer have np: "''hasOwnProperty'' \<notin> bufferIdSet this"
      by (auto simp: addBuffer_Some split: if_splits)
    show ?thesis
      unfolding e ih using AddBuffer np by (simp add: addBuffer_Some)
  next
    case (AddTexture t)
    with Cons.prems(1) have k: "toPropertyKey (texture_id t) \<noteq> ''__proto__''" by simp
    from p AddTexture have np: "''hasOwnProperty'' \<notin> textureIdSet this"
      by (auto simp: addTexture_Some split: if_splits)
    show ?thesis
      unfolding e ih using AddTexture np k
      by (simp add: addTexture_Some setTrue_ordinary insert_absorb)
  qed
qed




subsection \<open>The order of registrations\<close>

text \<open>
  The first registrations from a set of known identities are the first registrations from
  no identity, without the known ones; they are pairwise distinct, so that their exact
  sum is a sum over a set, which has no order.
\<close>

lemma firsts_union:
  "firsts (A \<union> B) xs = filter (\<lambda>e. fst e \<notin> A) (firsts B xs)"
proof (induction B xs rule: firsts.induct)
  case (1 seen)
  show ?case by simp
next
  case (2 seen k v xs)
  show ?case
  proof (cases "k \<in> seen")
    case True
    with 2 show ?thesis by simp
  next
    case notseen: False
    show ?thesis
    proof (cases "k \<in> A")
      case True
      then have "insert k (A \<union> seen) = A \<union> seen" by blast
      with True notseen 2 show ?thesis by simp
    next
      case False
      with notseen 2 show ?thesis by simp
    qed
  qed
qed

lemma firsts_filter: "firsts A xs = filter (\<lambda>e. fst e \<notin> A) (firsts {} xs)"
  using firsts_union [of A "{}" xs] by simp

lemma firsts_distinct_entries: "distinct (firsts seen xs)"
  using firsts_distinct [of seen xs] by (simp add: distinct_map)

lemma safeTotal_same_set:
  assumes "distinct xs" and "distinct ys" and "set xs = set ys"
    and "safeTotal (a # map f xs)"
  shows "safeTotal (a # map f ys)" and "exactSum (a # map f ys) = exactSum (a # map f xs)"
proof -
  have s: "sum_list (map (natOf \<circ> f) ys) = sum_list (map (natOf \<circ> f) xs)"
    using assms(1-3) by (simp add: sum_list_distinct_conv_sum_set)
  then show e: "exactSum (a # map f ys) = exactSum (a # map f xs)"
    by (simp add: exactSum_def comp_def)
  have "list_all (\<lambda>x. natValue x \<noteq> None) (map f ys)"
    using assms(3,4) by (simp add: safeTotal_def list_all_iff)
  with assms(4) e show "safeTotal (a # map f ys)"
    by (simp add: safeTotal_def)
qed

text \<open>
  Claim C6, as stated: two sequences that register the same set of identities with the
  same sizes and flags at first registration end with equal totals, whatever the order.
  The totals are Numbers and \<^verbatim>\<open>+=\<close> rounds: with buffers of \<open>2 ^ 53\<close>, 1 and 1 bytes the
  order X, Y, Z ends with \<open>2 ^ 53\<close> (each single byte is rounded away) and the order
  Y, Z, X with \<open>2 ^ 53 + 2\<close>.
\<close>

theorem totals_depend_on_order_from_2_53:
  "set (firsts {} (bufferRegistrations
          [AddBuffer bufferX False, AddBuffer bufferY False, AddBuffer bufferZ False]))
     = set (firsts {} (bufferRegistrations
          [AddBuffer bufferY False, AddBuffer bufferZ False, AddBuffer bufferX False]))
   \<and> set (firsts {} (textureRegistrations
          [AddBuffer bufferX False, AddBuffer bufferY False, AddBuffer bufferZ False]))
     = set (firsts {} (textureRegistrations
          [AddBuffer bufferY False, AddBuffer bufferZ False, AddBuffer bufferX False]))
   \<and> geometryByteLength (snd (run
         [AddBuffer bufferX False, AddBuffer bufferY False, AddBuffer bufferZ False]
         newStatistics)) = numberOf 9007199254740992
   \<and> geometryByteLength (snd (run
         [AddBuffer bufferY False, AddBuffer bufferZ False, AddBuffer bufferX False]
         newStatistics)) = numberOf 9007199254740994
   \<and> numberOf 9007199254740992 \<noteq> numberOf 9007199254740994"
proof -
  have "set (firsts {} (bufferRegistrations
          [AddBuffer bufferX False, AddBuffer bufferY False, AddBuffer bufferZ False]))
     = set (firsts {} (bufferRegistrations
          [AddBuffer bufferY False, AddBuffer bufferZ False, AddBuffer bufferX False]))"
    by (auto simp: bufferX_def bufferY_def bufferZ_def)
  moreover have "geometryByteLength (snd (run
         [AddBuffer bufferX False, AddBuffer bufferY False, AddBuffer bufferZ False]
         newStatistics)) = numberOf 9007199254740992"
    by (simp add: addBuffer_Some setTrue_def newStatistics_def bufferX_def bufferY_def
        bufferZ_def jsAdd_zero jsMul_one jsAdd_2_53_1 del: One_nat_def)
  moreover have "jsAdd (numberOf 2) (numberOf 9007199254740992) = numberOf 9007199254740994"
    using jsAdd_natValue [OF natValue_numberOf [of 2] natValue_2_53] by simp
  then have "jsAdd (numberOf (Suc (Suc 0))) (numberOf 9007199254740992)
               = numberOf 9007199254740994"
    by (simp only: numeral_2_eq_2)
  then have "geometryByteLength (snd (run
         [AddBuffer bufferY False, AddBuffer bufferZ False, AddBuffer bufferX False]
         newStatistics)) = numberOf 9007199254740994"
    by (simp add: addBuffer_Some setTrue_def newStatistics_def bufferX_def bufferY_def
        bufferZ_def jsAdd_zero jsMul_one jsMul_one_Suc jsAdd_numberOf)
  moreover have "numberOf 9007199254740992 \<noteq> numberOf 9007199254740994"
    using natValue_2_53 natValue_2_53_2 by auto
  ultimately show ?thesis by (simp del: run.simps)
qed

text \<open>
  Claim C6, amended: two sequences of \<open>addBuffer\<close> and \<open>addTexture\<close> calls in which no id
  has the property name \<^verbatim>\<open>__proto__\<close> and no call throws, started in the same state, that
  register the same set of identities with the same sizes and flags at first
  registration, end with equal \<open>geometryByteLength\<close> and equal \<open>texturesByteLength\<close>,
  whatever the order of the calls, as long as the totals are finite and their exact sums
  stay below \<open>2 ^ 53\<close>.
\<close>

theorem totals_independent_of_order:
  assumes "set (firsts {} (bufferRegistrations cs)) = set (firsts {} (bufferRegistrations ds))"
    and "set (firsts {} (textureRegistrations cs)) = set (firsts {} (textureRegistrations ds))"
    and "noProto cs" and "noProto ds"
    and "fst (run cs this) = Normal" and "fst (run ds this) = Normal"
    and "safeTotal (geometryByteLength this #
           map (bufferBytes \<circ> snd) (firsts (bufferIdSet this) (bufferRegistrations cs)))"
    and "safeTotal (texturesByteLength this #
           map snd (firsts (textureIdSet this) (textureRegistrations cs)))"
  shows "geometryByteLength (snd (run cs this)) = geometryByteLength (snd (run ds this))
         \<and> texturesByteLength (snd (run cs this)) = texturesByteLength (snd (run ds this))"
proof -
  let ?bc = "firsts (bufferIdSet this) (bufferRegistrations cs)"
  let ?bd = "firsts (bufferIdSet this) (bufferRegistrations ds)"
  let ?tc = "firsts (textureIdSet this) (textureRegistrations cs)"
  let ?td = "firsts (textureIdSet this) (textureRegistrations ds)"
  have sb: "set ?bc = set ?bd"
    using assms(1) by (subst (1 2) firsts_filter) simp
  have st: "set ?tc = set ?td"
    using assms(2) by (subst (1 2) firsts_filter) simp
  note b = safeTotal_same_set [OF firsts_distinct_entries firsts_distinct_entries sb assms(7)]
  note t = safeTotal_same_set [OF firsts_distinct_entries firsts_distinct_entries st assms(8)]
  have "geometryByteLength (snd (run cs this)) =
          numberOf (exactSum (geometryByteLength this # map (bufferBytes \<circ> snd) ?bc))"
    by (simp only: run_geometry [OF assms(3,5)] foldl_jsAdd_exact [OF assms(7)])
  moreover have "geometryByteLength (snd (run ds this)) =
          numberOf (exactSum (geometryByteLength this # map (bufferBytes \<circ> snd) ?bd))"
    by (simp only: run_geometry [OF assms(4,6)] foldl_jsAdd_exact [OF b(1)])
  moreover have "texturesByteLength (snd (run cs this)) =
          numberOf (exactSum (texturesByteLength this # map snd ?tc))"
    by (simp only: run_textures [OF assms(3,5)] foldl_jsAdd_exact [OF assms(8)])
  moreover have "texturesByteLength (snd (run ds this)) =
          numberOf (exactSum (texturesByteLength this # map snd ?td))"
    by (simp only: run_textures [OF assms(4,6)] foldl_jsAdd_exact [OF t(1)])
  ultimately show ?thesis using b(2) t(2) by simp
qed

theorem totals_independent_of_order_witness:
  "set (firsts {} (bufferRegistrations
          [AddBuffer bufferA False, AddTexture textureT1, AddBuffer bufferB True,
           AddBuffer bufferA True]))
     = set (firsts {} (bufferRegistrations
          [AddBuffer bufferB True, AddBuffer bufferA False, AddTexture textureT1]))
   \<and> noProto [AddBuffer bufferA False, AddTexture textureT1, AddBuffer bufferB True,
              AddBuffer bufferA True]
   \<and> noProto [AddBuffer bufferB True, AddBuffer bufferA False, AddTexture textureT1]
   \<and> fst (run [AddBuffer bufferB True, AddBuffer bufferA False, AddTexture textureT1]
             newStatistics) = Normal
   \<and> safeTotal (geometryByteLength newStatistics #
        map (bufferBytes \<circ> snd) (firsts (bufferIdSet newStatistics) (bufferRegistrations
          [AddBuffer bufferA False, AddTexture textureT1, AddBuffer bufferB True,
           AddBuffer bufferA True])))
   \<and> run [AddBuffer bufferA False, AddTexture textureT1, AddBuffer bufferB True,
          AddBuffer bufferA True] newStatistics
     = (Normal, newStatistics\<lparr>geometryByteLength := numberOf 200,
                              texturesByteLength := numberOf 40,
                              bufferIdSet := {''A'', ''B''}, textureIdSet := {''T1''}\<rparr>)
   \<and> geometryByteLength (snd (run
         [AddBuffer bufferB True, AddBuffer bufferA False, AddTexture textureT1]
         newStatistics)) = numberOf 200
   \<and> texturesByteLength (snd (run
         [AddBuffer bufferB True, AddBuffer bufferA False, AddTexture textureT1]
         newStatistics)) = numberOf 40"
proof -
  let ?cs = "[AddBuffer bufferA False, AddTexture textureT1, AddBuffer bufferB True,
              AddBuffer bufferA True]"
  let ?ds = "[AddBuffer bufferB True, AddBuffer bufferA False, AddTexture textureT1]"
  have b: "set (firsts {} (bufferRegistrations ?cs)) = set (firsts {} (bufferRegistrations ?ds))"
    by (auto simp: bufferA_def bufferB_def textureT1_def)
  have t: "set (firsts {} (textureRegistrations ?cs)) = set (firsts {} (textureRegistrations ?ds))"
    by (simp add: bufferA_def bufferB_def textureT1_def)
  have nc: "noProto ?cs" by (simp add: bufferA_def bufferB_def textureT1_def)
  have nd: "noProto ?ds" by (simp add: bufferA_def bufferB_def textureT1_def)
  have rc: "run ?cs newStatistics
     = (Normal, newStatistics\<lparr>geometryByteLength := numberOf 200,
                              texturesByteLength := numberOf 40,
                              bufferIdSet := {''A'', ''B''}, textureIdSet := {''T1''}\<rparr>)"
    by (simp add: addBuffer_Some addTexture_Some setTrue_def newStatistics_def bufferA_def
        bufferB_def textureT1_def jsAdd_zero jsMul_one jsMul_one_Suc jsMul_numberOf
        jsAdd_numberOf insert_commute)
  then have fc: "fst (run ?cs newStatistics) = Normal" by (simp del: run.simps)
  have fd: "fst (run ?ds newStatistics) = Normal"
    by (simp add: addBuffer_Some addTexture_Some setTrue_def newStatistics_def bufferA_def
        bufferB_def textureT1_def)
  have sb: "safeTotal (geometryByteLength newStatistics #
        map (bufferBytes \<circ> snd) (firsts (bufferIdSet newStatistics) (bufferRegistrations ?cs)))"
    by (simp add: safeTotal_def exactSum_def newStatistics_def bufferA_def bufferB_def
        textureT1_def bufferBytes_def jsMul_one jsMul_one_Suc jsMul_numberOf
        natValue_numberOf natOf_numberOf)
  have st: "safeTotal (texturesByteLength newStatistics #
        map snd (firsts (textureIdSet newStatistics) (textureRegistrations ?cs)))"
    by (simp add: safeTotal_def exactSum_def newStatistics_def bufferA_def bufferB_def
        textureT1_def natValue_numberOf natOf_numberOf)
  from totals_independent_of_order [OF b t nc nd fc fd sb st] rc
  have "geometryByteLength (snd (run ?ds newStatistics)) = numberOf 200
      \<and> texturesByteLength (snd (run ?ds newStatistics)) = numberOf 40"
    by (simp del: run.simps)
  with b nc nd fd sb rc show ?thesis by (simp del: run.simps noProto.simps)
qed

subsection \<open>The total of the batch textures\<close>

lemma foldl_jsAdd_from_zero:
  "safeTotal xs \<Longrightarrow> foldl jsAdd (numberOf 0) xs = numberOf (exactSum xs)"
proof -
  assume s: "safeTotal xs"
  have e: "exactSum (numberOf 0 # xs) = exactSum xs"
    by (simp add: exactSum_def natOf_numberOf)
  with s have "safeTotal (numberOf 0 # xs)"
    by (simp add: safeTotal_def natValue_numberOf)
  then have "foldl jsAdd (numberOf 0) xs = numberOf (exactSum (numberOf 0 # xs))"
    by (rule foldl_jsAdd_exact)
  with e show ?thesis by simp
qed

text \<open>
  Claim C2, as stated: every read of \<open>batchTexturesByteLength\<close> returns the sum of the
  current byte lengths of the registered batch textures. The loop of lines 90 to 93 adds
  Numbers: with batch textures of \<open>2 ^ 53\<close>, 1 and 1 bytes it returns \<open>2 ^ 53\<close>, and the sum
  is \<open>2 ^ 53 + 2\<close>.
\<close>

theorem batchTexturesByteLength_rounds_from_2_53:
  "map (\<lambda>r. natValue (batchTexture_byteLength (bigOverlays r)))
       (aa_values (batchTextureIdMap (snd (registerAll
          [(bigOverlays, 1), (bigOverlays, 2), (bigOverlays, 3)] (clear newStatistics)))))
     = [Some 9007199254740992, Some 1, Some 1]
   \<and> natValue (batchTexturesByteLength bigOverlays (snd (registerAll
          [(bigOverlays, 1), (bigOverlays, 2), (bigOverlays, 3)] (clear newStatistics))))
     = Some 9007199254740992
   \<and> exactSum (map (\<lambda>r. batchTexture_byteLength (bigOverlays r))
       (aa_values (batchTextureIdMap (snd (registerAll
          [(bigOverlays, 1), (bigOverlays, 2), (bigOverlays, 3)] (clear newStatistics))))))
     = 9007199254740994"
proof -
  let ?s = "snd (registerAll [(bigOverlays, 1), (bigOverlays, 2), (bigOverlays, 3)]
                   (clear newStatistics))"
  have v: "aa_values (batchTextureIdMap ?s) = [1, 2, 3]"
    by (simp add: addBatchTexture_Some aa_contains_keys aa_values_def clear_new
        newStatistics_def bigOverlays_def)
  have "map (\<lambda>r. natValue (batchTexture_byteLength (bigOverlays r)))
          (aa_values (batchTextureIdMap ?s)) = [Some 9007199254740992, Some 1, Some 1]"
    unfolding v by (simp add: bigOverlays_def natValue_2_53 natValue_numberOf)
  moreover have "batchTexturesByteLength bigOverlays ?s = numberOf 9007199254740992"
    unfolding batchTexturesByteLength_foldl v
    by (simp add: bigOverlays_def jsAdd_zero jsAdd_2_53_1 del: One_nat_def)
  moreover have "exactSum (map (\<lambda>r. batchTexture_byteLength (bigOverlays r))
          (aa_values (batchTextureIdMap ?s))) = 9007199254740994"
    unfolding v by (simp add: exactSum_def bigOverlays_def natOf_def natValue_2_53
        natValue_numberOf)
  ultimately show ?thesis by (simp add: natValue_2_53 del: registerAll.simps)
qed

text \<open>
  Claim C2, amended: every read of \<open>batchTexturesByteLength\<close> returns the byte lengths
  that the store has at the read for the references of the registry, added from left to
  right from 0 by the addition of Numbers; when the byte lengths are finite and their sum
  is below \<open>2 ^ 53\<close>, this is their sum. After \<open>clear\<close> and any sequence of \<open>addBatchTexture\<close>
  calls, which all complete, the registry holds the first reference of each distinct
  identity, so that the read is over the distinct identities registered since \<open>clear\<close>.
  Nothing is cached: after one batch texture is registered and its byte length is changed
  to \<open>n\<close> in the store, the read gives \<open>n\<close>, with no second registration.
\<close>

theorem batchTexturesByteLength_reads_current_sizes:
  "batchTexturesByteLength h this =
     foldl jsAdd (numberOf 0)
       (map (\<lambda>r. batchTexture_byteLength (h r)) (aa_values (batchTextureIdMap this)))
   \<and> (safeTotal (map (\<lambda>r. batchTexture_byteLength (h r)) (aa_values (batchTextureIdMap this)))
        \<longrightarrow> batchTexturesByteLength h this =
              numberOf (exactSum (map (\<lambda>r. batchTexture_byteLength (h r))
                                      (aa_values (batchTextureIdMap this)))))
   \<and> fst (registerAll cs (clear that)) = Normal
   \<and> batchTextureIdMap (snd (registerAll cs (clear that))) =
       firsts {} (batchTextureRegistrations cs)
   \<and> distinct (map fst (firsts {} (batchTextureRegistrations cs)))
   \<and> fst ` set (firsts {} (batchTextureRegistrations cs)) =
       fst ` set (batchTextureRegistrations cs)
   \<and> batchTexturesByteLength g (snd (registerAll cs (clear that))) =
       foldl jsAdd (numberOf 0)
         (map (\<lambda>(k, r). batchTexture_byteLength (g r))
              (firsts {} (batchTextureRegistrations cs)))
   \<and> (safeTotal (map (\<lambda>(k, r). batchTexture_byteLength (g r))
                     (firsts {} (batchTextureRegistrations cs)))
        \<longrightarrow> batchTexturesByteLength g (snd (registerAll cs (clear that))) =
              numberOf (exactSum (map (\<lambda>(k, r). batchTexture_byteLength (g r))
                                      (firsts {} (batchTextureRegistrations cs)))))
   \<and> batchTexturesByteLength (f(r := (f r)\<lparr>batchTexture_byteLength := n\<rparr>))
         (snd (registerAll [(f, r)] (clear start))) = n"
proof -
  have m: "batchTextureIdMap (snd (registerAll cs (clear that))) =
             firsts {} (batchTextureRegistrations cs)" for cs that
    by (simp add: registerAll_map clear_new) (simp add: newStatistics_def)
  have c: "(\<lambda>r. batchTexture_byteLength (g r)) \<circ> snd =
          (\<lambda>(k :: js_id, r). batchTexture_byteLength (g r))"
    by (auto simp: fun_eq_iff)
  have r: "batchTexturesByteLength g (snd (registerAll cs (clear that))) =
       foldl jsAdd (numberOf 0)
         (map (\<lambda>(k, r). batchTexture_byteLength (g r))
              (firsts {} (batchTextureRegistrations cs)))"
    by (simp add: batchTexturesByteLength_foldl m aa_values_def c)
  have "batchTexturesByteLength (f(r := (f r)\<lparr>batchTexture_byteLength := n\<rparr>))
         (snd (registerAll [(f, r)] (clear start))) = n"
    by (simp add: batchTexturesByteLength_foldl m [of "[(f, r)]"] aa_values_def
        batchTextureRegistrations_def jsAdd_zero del: registerAll.simps)
  moreover note r
  moreover have "safeTotal (map (\<lambda>(k, r). batchTexture_byteLength (g r))
                     (firsts {} (batchTextureRegistrations cs)))
        \<longrightarrow> batchTexturesByteLength g (snd (registerAll cs (clear that))) =
              numberOf (exactSum (map (\<lambda>(k, r). batchTexture_byteLength (g r))
                                      (firsts {} (batchTextureRegistrations cs))))"
    unfolding r by (rule impI) (rule foldl_jsAdd_from_zero)
  moreover have "safeTotal (map (\<lambda>r. batchTexture_byteLength (h r)) (aa_values (batchTextureIdMap this)))
        \<longrightarrow> batchTexturesByteLength h this =
              numberOf (exactSum (map (\<lambda>r. batchTexture_byteLength (h r))
                                      (aa_values (batchTextureIdMap this))))"
    unfolding batchTexturesByteLength_foldl by (rule impI) (rule foldl_jsAdd_from_zero)
  moreover have "batchTexturesByteLength h this =
     foldl jsAdd (numberOf 0)
       (map (\<lambda>r. batchTexture_byteLength (h r)) (aa_values (batchTextureIdMap this)))"
    by (rule batchTexturesByteLength_foldl)
  moreover note m [of cs that] registerAll_Normal [of cs "clear that"]
    firsts_distinct [of "{}" "batchTextureRegistrations cs"]
    firsts_keys [of "{}" "batchTextureRegistrations cs"]
  ultimately show ?thesis by blast
qed

theorem batchTexturesByteLength_reads_current_sizes_witness:
  "safeTotal (map (\<lambda>r. batchTexture_byteLength (overlays 30 20 r))
       (aa_values (batchTextureIdMap (snd (registerAll
          [(overlays 0 0, 1), (overlays 0 0, 2), (overlays 0 0, 1)] (clear newStatistics))))))
   \<and> safeTotal (map (\<lambda>(k, r). batchTexture_byteLength (overlays 30 20 r))
       (firsts {} (batchTextureRegistrations
          [(overlays 0 0, 1), (overlays 0 0, 2), (overlays 0 0, 1)])))
   \<and> aa_values (batchTextureIdMap (snd (registerAll
          [(overlays 0 0, 1), (overlays 0 0, 2), (overlays 0 0, 1)] (clear newStatistics))))
       = [1, 2]
   \<and> batchTexturesByteLength (overlays 0 0) (snd (registerAll
          [(overlays 0 0, 1), (overlays 0 0, 2), (overlays 0 0, 1)] (clear newStatistics)))
       = numberOf 0
   \<and> batchTexturesByteLength (overlays 30 20) (snd (registerAll
          [(overlays 0 0, 1), (overlays 0 0, 2), (overlays 0 0, 1)] (clear newStatistics)))
       = numberOf 50"
proof -
  let ?cs = "[(overlays 0 0, 1), (overlays 0 0, 2), (overlays 0 0, 1)]"
  let ?s = "snd (registerAll ?cs (clear newStatistics))"
  have f: "firsts {} (batchTextureRegistrations ?cs) = [(IdString ''O1'', 1), (IdString ''O2'', 2)]"
    by (simp add: batchTextureRegistrations_def overlays_def)
  have v: "aa_values (batchTextureIdMap ?s) = [1, 2]"
    by (simp add: addBatchTexture_Some aa_contains_keys aa_values_def clear_new
        newStatistics_def overlays_def)
  have s1: "safeTotal (map (\<lambda>r. batchTexture_byteLength (overlays k l r))
              (aa_values (batchTextureIdMap ?s)))" if "k + l < 2 ^ 53" for k l
    unfolding v using that
    by (simp add: safeTotal_def exactSum_def overlays_def natValue_numberOf natOf_numberOf)
  have s2: "safeTotal (map (\<lambda>(k, r). batchTexture_byteLength (overlays 30 20 r))
              (firsts {} (batchTextureRegistrations ?cs)))"
    unfolding f
    by (simp add: safeTotal_def exactSum_def overlays_def natValue_numberOf natOf_numberOf)
  have e: "exactSum (map (\<lambda>r. batchTexture_byteLength (overlays k l r))
              (aa_values (batchTextureIdMap ?s))) = k + l" if "k + l < 2 ^ 53" for k l
    unfolding v using that by (simp add: exactSum_def overlays_def natOf_numberOf)
  have p0: "(0::nat) + 0 < 2 ^ 53" and p1: "(30::nat) + 20 < 2 ^ 53" by simp_all
  from batchTexturesByteLength_reads_current_sizes [where h = "overlays 0 0" and this = ?s] s1 [OF p0]
  have "batchTexturesByteLength (overlays 0 0) ?s =
          numberOf (exactSum (map (\<lambda>r. batchTexture_byteLength (overlays 0 0 r))
              (aa_values (batchTextureIdMap ?s))))"
    by blast
  then have a: "batchTexturesByteLength (overlays 0 0) ?s = numberOf 0"
    by (simp only: e [OF p0]) simp
  from batchTexturesByteLength_reads_current_sizes [where h = "overlays 30 20" and this = ?s] s1 [OF p1]
  have "batchTexturesByteLength (overlays 30 20) ?s =
          numberOf (exactSum (map (\<lambda>r. batchTexture_byteLength (overlays 30 20 r))
              (aa_values (batchTextureIdMap ?s))))"
    by blast
  then have b: "batchTexturesByteLength (overlays 30 20) ?s = numberOf 50"
    by (simp only: e [OF p1]) simp
  from s1 [OF p1] s2 v a b show ?thesis by (simp del: registerAll.simps)
qed

end
